theory Spec2Isabelle
  imports Complex_Main
begin

section \<open>Data model of \<open>bitrate_stats.py\<close>\<close>

text \<open>
  Python floats are modelled by their exact values: a finite float is the rational it
  denotes (\<open>Fin\<close>), and \<open>NaN\<close> is the float not-a-number. Arithmetic on finite
  values is exact (no binary rounding, no overflow to infinity); not-a-number
  propagates through \<open>+\<close> and \<open>-\<close> and makes every comparison false, and a true
  division by zero raises \<open>ZeroDivisionError\<close> as Python's does.

  The string sentinel \<open>"NaN"\<close> that a \<open>FrameEntry\<close> carries in place of a missing
  \<open>pts\<close> or \<open>duration\<close> is \<open>None\<close>; \<open>py_float\<close> is Python's \<open>float(...)\<close> on such a
  field, which turns the sentinel into the float not-a-number.
\<close>

datatype pyfloat = Fin rat | NaN

datatype error = ZeroDivisionError | ValueError | RuntimeError | SystemExit int

datatype frame_kind = I | Non_I

datatype StreamType = Audio | Video

datatype Aggregation = Time | Gop

text \<open>One entry of the \<open>packets\<close> array of the probe's JSON output, with its numbers read.\<close>

record packet_info =
  flags :: string
  pts_time :: "rat option"
  duration_time :: "rat option"
  size_p :: int

text \<open>
  \<open>FrameEntry\<close>: the fields \<open>n\<close>, \<open>frame_type\<close>, \<open>pts\<close>, \<open>size\<close>, \<open>duration\<close> of the source
  (\<open>n_f\<close>, \<open>size_f\<close> and \<open>duration_f\<close> carry a suffix to keep them apart from other names).
\<close>

record FrameEntry =
  n_f :: int
  frame_type :: frame_kind
  pts :: "rat option"
  size_f :: int
  duration_f :: "rat option"

record BitrateStatsSummary =
  s_input_file :: string
  s_stream_type :: StreamType
  s_avg_fps :: pyfloat
  s_num_frames :: nat
  s_avg_bitrate :: pyfloat
  s_avg_bitrate_over_chunks :: pyfloat
  s_max_bitrate :: pyfloat
  s_min_bitrate :: pyfloat
  s_max_bitrate_factor :: pyfloat
  s_bitrate_per_chunk :: "pyfloat list"
  s_aggregation :: Aggregation
  s_chunk_size :: int
  s_duration :: pyfloat

text \<open>
  The attributes of a \<open>BitrateStats\<close> instance. \<open>chunks_cached\<close> is \<open>self._chunks\<close>; the
  three attributes that \<open>_assemble_bitrate_statistics\<close> creates are \<open>None\<close> until then.
\<close>

record BitrateStats =
  input_file :: string
  stream_type :: StreamType
  aggregation :: Aggregation
  chunk_size :: int
  dry_run :: bool
  duration :: pyfloat
  fps :: pyfloat
  max_bitrate :: pyfloat
  min_bitrate :: pyfloat
  moving_avg_bitrate :: "pyfloat list"
  frames :: "FrameEntry list"
  bitrate_stats :: "BitrateStatsSummary option"
  rounding_factor :: nat
  chunks_cached :: "pyfloat list"
  avg_bitrate :: "pyfloat option"
  avg_bitrate_over_chunks :: "pyfloat option"
  max_bitrate_factor :: "pyfloat option"

text \<open>
  The world outside the instance: what the probe prints for the input file (\<open>None\<close> when
  it exits with a non-zero code) and how many probe processes have been started.
\<close>

record world =
  probe_packets :: "packet_info list option"
  probe_runs :: nat

section \<open>Float operations\<close>

definition py_float :: "rat option \<Rightarrow> pyfloat" where
  "py_float v = (case v of None \<Rightarrow> NaN | Some x \<Rightarrow> Fin x)"

fun float_add :: "pyfloat \<Rightarrow> pyfloat \<Rightarrow> pyfloat" where
  "float_add (Fin a) (Fin b) = Fin (a + b)"
| "float_add _ _ = NaN"

fun float_sub :: "pyfloat \<Rightarrow> pyfloat \<Rightarrow> pyfloat" where
  "float_sub (Fin a) (Fin b) = Fin (a - b)"
| "float_sub _ _ = NaN"

fun float_less :: "pyfloat \<Rightarrow> pyfloat \<Rightarrow> bool" where
  "float_less (Fin a) (Fin b) = (a < b)"
| "float_less _ _ = False"

text \<open>Python's \<open>/\<close>: the divisor is tested for zero first, also when the dividend is not-a-number.\<close>

fun truediv :: "pyfloat \<Rightarrow> pyfloat \<Rightarrow> error + pyfloat" where
  "truediv a (Fin b) =
     (if b = 0 then Inl ZeroDivisionError
      else case a of Fin x \<Rightarrow> Inr (Fin (x / b)) | NaN \<Rightarrow> Inr NaN)"
| "truediv a NaN = Inr NaN"

text \<open>Rounding to the nearest integer, ties to the even one, as \<open>round\<close> does.\<close>

definition round_half_even :: "rat \<Rightarrow> int" where
  "round_half_even x =
     (let f = \<lfloor>x\<rfloor>; r = x - of_int f
      in if r < 1 / 2 then f
         else if 1 / 2 < r then f + 1
         else if even f then f else f + 1)"

text \<open>\<open>round(x, ndigits)\<close>; on not-a-number it returns not-a-number.\<close>

fun py_round :: "pyfloat \<Rightarrow> nat \<Rightarrow> pyfloat" where
  "py_round (Fin x) ndigits = Fin (of_int (round_half_even (x * 10 ^ ndigits)) / 10 ^ ndigits)"
| "py_round NaN ndigits = NaN"

text \<open>\<open>max\<close> and \<open>min\<close> of a list: \<open>ValueError\<close> on an empty one; the running extremum
  is replaced when the next item compares greater (less).\<close>

fun py_max :: "pyfloat list \<Rightarrow> error + pyfloat" where
  "py_max [] = Inl ValueError"
| "py_max (x # xs) = Inr (fold (\<lambda>item m. if float_less m item then item else m) xs x)"

fun py_min :: "pyfloat list \<Rightarrow> error + pyfloat" where
  "py_min [] = Inl ValueError"
| "py_min (x # xs) = Inr (fold (\<lambda>item m. if float_less item m then item else m) xs x)"

text \<open>\<open>numpy.mean\<close>: the sum over the count; not-a-number on an empty list.\<close>

definition np_mean :: "pyfloat list \<Rightarrow> pyfloat" where
  "np_mean xs =
     (if xs = [] then NaN
      else case fold (\<lambda>x acc. float_add acc x) xs (Fin 0) of
             Fin t \<Rightarrow> Fin (t / of_nat (length xs))
           | NaN \<Rightarrow> NaN)"

section \<open>Reading the packets and repairing durations\<close>

text \<open>\<open>default_duration\<close>: the first \<open>duration_time\<close> any packet has, else the sentinel.\<close>

definition default_duration :: "packet_info list \<Rightarrow> rat option" where
  "default_duration info =
     (case find (\<lambda>x. duration_time x \<noteq> None) info of
        None \<Rightarrow> None
      | Some x \<Rightarrow> duration_time x)"

definition frame_entry :: "rat option \<Rightarrow> nat \<times> packet_info \<Rightarrow> FrameEntry" where
  "frame_entry dflt ip =
     (case ip of (idx, packet) \<Rightarrow>
       \<lparr> n_f = int idx,
         frame_type = (if flags packet = ''K_'' then I else Non_I),
         pts = pts_time packet,
         size_f = size_p packet,
         duration_f =
           (case duration_time packet of
              Some d \<Rightarrow> Some d
            | None \<Rightarrow> dflt) \<rparr>)"

text \<open>
  One round of the loop of \<open>_fix_durations\<close> at index \<open>i\<close>, on the list and
  \<open>last_duration\<close>. A missing \<open>pts\<close> on either side skips the round.
\<close>

definition fix_step :: "nat \<Rightarrow> FrameEntry list \<times> rat option \<Rightarrow> FrameEntry list \<times> rat option" where
  "fix_step i st =
     (case st of (ret, last_duration) \<Rightarrow>
       (case pts (ret ! i) of
          None \<Rightarrow> (ret, last_duration)
        | Some curr_pts \<Rightarrow>
           (case pts (ret ! (i + 1)) of
              None \<Rightarrow> (ret, last_duration)
            | Some next_pts \<Rightarrow>
                (ret[i := (ret ! i)\<lparr>duration_f := Some (next_pts - curr_pts)\<rparr>],
                 Some (next_pts - curr_pts)))))"

definition fix_durations :: "FrameEntry list \<Rightarrow> FrameEntry list" where
  "fix_durations ret =
     (case fold fix_step [0..<length ret - 1] (ret, None) of
        (ret', last_duration) \<Rightarrow>
          (case last_duration of
             None \<Rightarrow> ret'
           | Some d \<Rightarrow> ret'[length ret' - 1 := (ret' ! (length ret' - 1))\<lparr>duration_f := Some d\<rparr>]))"

text \<open>
  The body of \<open>_calculate_frame_sizes\<close> after the probe has answered: the entries are
  numbered from 1, a packet without its own duration takes the default one, and the
  repair by \<open>pts\<close> runs only when no packet at all has a duration.
\<close>

definition frame_entries :: "packet_info list \<Rightarrow> FrameEntry list" where
  "frame_entries info =
     (let dflt = default_duration info;
          ret = map (frame_entry dflt) (enumerate 1 info)
      in if dflt = None then fix_durations ret else ret)"

text \<open>
  \<open>run_command\<close> for the probe: a dry run starts no process and returns nothing; else
  a process is started, and a non-zero exit code ends the program with status 1.
\<close>

definition run_command :: "bool \<Rightarrow> world \<Rightarrow> (error + packet_info list option) \<times> world" where
  "run_command dry w =
     (if dry then (Inr None, w)
      else case probe_packets w of
             None \<Rightarrow> (Inl (SystemExit 1), w\<lparr>probe_runs := probe_runs w + 1\<rparr>)
           | Some info \<Rightarrow> (Inr (Some info), w\<lparr>probe_runs := probe_runs w + 1\<rparr>))"

definition calculate_frame_sizes ::
  "BitrateStats \<Rightarrow> world \<Rightarrow> (error + FrameEntry list) \<times> BitrateStats \<times> world" where
  "calculate_frame_sizes self w =
     (case run_command (dry_run self) w of
        (Inl e, w') \<Rightarrow> (Inl e, self, w')
      | (Inr stdout, w') \<Rightarrow>
         (if dry_run self \<or> stdout = None then (Inl (SystemExit 0), self, w')
          else case stdout of
                 None \<Rightarrow> (Inl (SystemExit 0), self, w')
               | Some info \<Rightarrow>
                   (let ret = frame_entries info
                    in (Inr ret, self\<lparr>frames := ret\<rparr>, w'))))"

section \<open>Duration and frame rate\<close>

primrec known_durations :: "FrameEntry list \<Rightarrow> rat list" where
  "known_durations [] = []"
| "known_durations (f # fs) =
     (case duration_f f of
        None \<Rightarrow> known_durations fs
      | Some d \<Rightarrow> d # known_durations fs)"

text \<open>\<open>_calculate_duration\<close>: the sum of the durations that are not the sentinel, rounded to 2 digits.\<close>

definition calculate_duration :: "BitrateStats \<Rightarrow> pyfloat \<times> BitrateStats" where
  "calculate_duration self =
     (let d = py_round (Fin (sum_list (known_durations (frames self)))) 2
      in (d, self\<lparr>duration := d\<rparr>))"

definition calculate_fps :: "BitrateStats \<Rightarrow> (error + pyfloat) \<times> BitrateStats" where
  "calculate_fps self =
     (case truediv (Fin (of_nat (length (frames self)))) (duration self) of
        Inl e \<Rightarrow> (Inl e, self)
      | Inr v \<Rightarrow> (Inr v, self\<lparr>fps := v\<rparr>))"

section \<open>Chunks and their bitrates\<close>

text \<open>One round of the loop over the frames in GOP aggregation, on \<open>aggregation_chunks\<close> and \<open>curr_list\<close>.\<close>

definition gop_step ::
  "FrameEntry \<Rightarrow> FrameEntry list list \<times> FrameEntry list \<Rightarrow> FrameEntry list list \<times> FrameEntry list" where
  "gop_step frame st =
     (case st of (aggregation_chunks, curr_list) \<Rightarrow>
       (let curr_list1 = (if frame_type frame \<noteq> I then curr_list @ [frame] else curr_list)
        in if frame_type frame = I
           then ((if curr_list1 \<noteq> [] then aggregation_chunks @ [curr_list1] else aggregation_chunks),
                 [frame])
           else (aggregation_chunks, curr_list1)))"

definition gop_chunks :: "FrameEntry list \<Rightarrow> FrameEntry list list" where
  "gop_chunks fs =
     (case fold gop_step fs ([], []) of
        (aggregation_chunks, curr_list) \<Rightarrow> aggregation_chunks @ [curr_list])"

text \<open>One round of the loop in time aggregation, on \<open>aggregation_chunks\<close>, \<open>curr_list\<close> and \<open>agg_time\<close>.\<close>

definition time_step ::
  "int \<Rightarrow> FrameEntry \<Rightarrow> FrameEntry list list \<times> FrameEntry list \<times> pyfloat
     \<Rightarrow> FrameEntry list list \<times> FrameEntry list \<times> pyfloat" where
  "time_step csize frame st =
     (case st of (aggregation_chunks, curr_list, agg_time) \<Rightarrow>
       (if float_less agg_time (Fin (of_int csize))
        then (aggregation_chunks, curr_list @ [frame],
              float_add agg_time (py_float (duration_f frame)))
        else ((if curr_list \<noteq> [] then aggregation_chunks @ [curr_list] else aggregation_chunks),
              [frame], py_float (duration_f frame))))"

definition time_chunks :: "int \<Rightarrow> FrameEntry list \<Rightarrow> FrameEntry list list" where
  "time_chunks csize fs =
     (case fold (time_step csize) fs ([], [], Fin 0) of
        (aggregation_chunks, curr_list, agg_time) \<Rightarrow> aggregation_chunks @ [curr_list])"

text \<open>The list \<open>aggregation_chunks\<close> that \<open>_collect_chunks\<close> builds before it computes bitrates.\<close>

definition aggregation_chunks_of :: "Aggregation \<Rightarrow> int \<Rightarrow> FrameEntry list \<Rightarrow> FrameEntry list list" where
  "aggregation_chunks_of agg csize fs =
     (if agg = Gop then gop_chunks fs else time_chunks csize fs)"

definition bitrate_for_frame_list :: "FrameEntry list \<Rightarrow> error + pyfloat" where
  "bitrate_for_frame_list frame_list =
     (if length frame_list < 2 then Inr NaN
      else let dur = float_sub (py_float (pts (last frame_list))) (py_float (pts (hd frame_list)));
               sz = sum_list (map size_f frame_list)
           in truediv (Fin (of_int (sz * 8) / 1000)) dur)"

text \<open>The list comprehension over the chunks: the first bitrate that raises ends it.\<close>

primrec bitrates :: "FrameEntry list list \<Rightarrow> error + pyfloat list" where
  "bitrates [] = Inr []"
| "bitrates (x # xs) =
     (case bitrate_for_frame_list x of
        Inl e \<Rightarrow> Inl e
      | Inr b \<Rightarrow> (case bitrates xs of Inl e \<Rightarrow> Inl e | Inr bs \<Rightarrow> Inr (b # bs)))"

definition collect_chunks :: "BitrateStats \<Rightarrow> (error + pyfloat list) \<times> BitrateStats" where
  "collect_chunks self =
     (if length (chunks_cached self) \<noteq> 0 then (Inr (chunks_cached self), self)
      else case bitrates (aggregation_chunks_of (aggregation self) (chunk_size self) (frames self)) of
             Inl e \<Rightarrow> (Inl e, self)
           | Inr bs \<Rightarrow> (Inr bs, self\<lparr>chunks_cached := bs\<rparr>))"

definition calculate_max_min_bitrate :: "BitrateStats \<Rightarrow> (error + pyfloat \<times> pyfloat) \<times> BitrateStats" where
  "calculate_max_min_bitrate self =
     (case collect_chunks self of
        (Inl e, s1) \<Rightarrow> (Inl e, s1)
      | (Inr c1, s1) \<Rightarrow>
         (case py_max c1 of
            Inl e \<Rightarrow> (Inl e, s1)
          | Inr mx \<Rightarrow>
             (let s2 = s1\<lparr>max_bitrate := mx\<rparr>
              in case collect_chunks s2 of
                   (Inl e, s3) \<Rightarrow> (Inl e, s3)
                 | (Inr c2, s3) \<Rightarrow>
                    (case py_min c2 of
                       Inl e \<Rightarrow> (Inl e, s3)
                     | Inr mn \<Rightarrow> (Inr (mx, mn), s3\<lparr>min_bitrate := mn\<rparr>)))))"

section \<open>The summary\<close>

definition assemble_bitrate_statistics :: "BitrateStats \<Rightarrow> (error + BitrateStatsSummary) \<times> BitrateStats" where
  "assemble_bitrate_statistics self =
     (case truediv (Fin (of_int (sum_list (map size_f (frames self)) * 8) / 1000)) (duration self) of
        Inl e \<Rightarrow> (Inl e, self)
      | Inr ab \<Rightarrow>
         (let s1 = self\<lparr>avg_bitrate := Some ab\<rparr>
          in case collect_chunks s1 of
               (Inl e, s2) \<Rightarrow> (Inl e, s2)
             | (Inr c1, s2) \<Rightarrow>
                (let s3 = s2\<lparr>avg_bitrate_over_chunks := Some (np_mean c1)\<rparr>
                 in case truediv (max_bitrate s3) ab of
                      Inl e \<Rightarrow> (Inl e, s3)
                    | Inr mf \<Rightarrow>
                       (let s4 = s3\<lparr>max_bitrate_factor := Some mf\<rparr>
                        in case collect_chunks s4 of
                             (Inl e, s5) \<Rightarrow> (Inl e, s5)
                           | (Inr c2, s5) \<Rightarrow>
                              (let ret =
                                 \<lparr> s_input_file = input_file s5,
                                   s_stream_type = stream_type s5,
                                   s_avg_fps = py_round (fps s5) (rounding_factor s5),
                                   s_num_frames = length (frames s5),
                                   s_avg_bitrate = py_round ab (rounding_factor s5),
                                   s_avg_bitrate_over_chunks = py_round (np_mean c1) (rounding_factor s5),
                                   s_max_bitrate = py_round (max_bitrate s5) (rounding_factor s5),
                                   s_min_bitrate = py_round (min_bitrate s5) (rounding_factor s5),
                                   s_max_bitrate_factor = py_round mf (rounding_factor s5),
                                   s_bitrate_per_chunk = map (\<lambda>b. py_round b (rounding_factor s5)) c2,
                                   s_aggregation = aggregation s5,
                                   s_chunk_size = chunk_size s5,
                                   s_duration = py_round (duration s5) (rounding_factor s5) \<rparr>
                               in (Inr ret, s5\<lparr>bitrate_stats := Some ret\<rparr>))))))"

definition calculate_statistics ::
  "BitrateStats \<Rightarrow> world \<Rightarrow> (error + BitrateStatsSummary) \<times> BitrateStats \<times> world" where
  "calculate_statistics self w =
     (case calculate_frame_sizes self w of
        (Inl e, s1, w1) \<Rightarrow> (Inl e, s1, w1)
      | (Inr fs, s1, w1) \<Rightarrow>
         (case calculate_duration s1 of (d, s2) \<Rightarrow>
           (case calculate_fps s2 of
              (Inl e, s3) \<Rightarrow> (Inl e, s3, w1)
            | (Inr v, s3) \<Rightarrow>
               (case calculate_max_min_bitrate s3 of
                  (Inl e, s4) \<Rightarrow> (Inl e, s4, w1)
                | (Inr mm, s4) \<Rightarrow>
                   (case assemble_bitrate_statistics s4 of
                      (Inl e, s5) \<Rightarrow> (Inl e, s5, w1)
                    | (Inr r, s5) \<Rightarrow>
                       (case bitrate_stats s5 of
                          None \<Rightarrow> (Inl RuntimeError, s5, w1)
                        | Some b \<Rightarrow> (Inr b, s5, w1)))))))"

text \<open>
  \<open>__init__\<close>, on a stream type and an aggregation that are already one of the two
  allowed words each: the two remaining checks, then the initial attributes.
\<close>

definition init :: "string \<Rightarrow> StreamType \<Rightarrow> Aggregation \<Rightarrow> int \<Rightarrow> bool \<Rightarrow> error + BitrateStats" where
  "init file st agg csize dry =
     (if agg = Gop \<and> st = Audio then Inl ValueError
      else if csize \<noteq> 0 \<and> csize < 0 then Inl ValueError
      else Inr \<lparr> input_file = file, stream_type = st, aggregation = agg, chunk_size = csize,
                 dry_run = dry, duration = Fin 0, fps = Fin 0, max_bitrate = Fin 0,
                 min_bitrate = Fin 0, moving_avg_bitrate = [], frames = [],
                 bitrate_stats = None, rounding_factor = 3, chunks_cached = [],
                 avg_bitrate = None, avg_bitrate_over_chunks = None,
                 max_bitrate_factor = None \<rparr>)"

section \<open>Notions the properties are stated with\<close>

text \<open>A chunk starts with a key frame: it is not empty and its first entry has type \<open>I\<close>.\<close>

definition starts_with_key :: "FrameEntry list \<Rightarrow> bool" where
  "starts_with_key c = (case c of [] \<Rightarrow> False | f # _ \<Rightarrow> frame_type f = I)"


text \<open>
  What one round of the loop of \<open>_fix_durations\<close> computes at index \<open>i\<close>: the difference
  of the two timestamps when both are there, and the entry with that duration.
\<close>

definition pts_delta :: "FrameEntry list \<Rightarrow> nat \<Rightarrow> rat option" where
  "pts_delta ret i =
     (case pts (ret ! i) of
        None \<Rightarrow> None
      | Some a \<Rightarrow> (case pts (ret ! (i + 1)) of None \<Rightarrow> None | Some b \<Rightarrow> Some (b - a)))"

definition repaired :: "FrameEntry list \<Rightarrow> nat \<Rightarrow> FrameEntry" where
  "repaired ret i =
     (case pts_delta ret i of
        None \<Rightarrow> ret ! i
      | Some d \<Rightarrow> (ret ! i)\<lparr>duration_f := Some d\<rparr>)"

text \<open>
  What \<open>calculate_statistics\<close> does once \<open>_calculate_frame_sizes\<close> has stored the frames:
  the remaining four steps and the final test, on the instance alone.
\<close>

definition statistics_after_probe :: "BitrateStats \<Rightarrow> (error + BitrateStatsSummary) \<times> BitrateStats" where
  "statistics_after_probe s1 =
     (case calculate_duration s1 of (d, s2) \<Rightarrow>
       (case calculate_fps s2 of
          (Inl e, s3) \<Rightarrow> (Inl e, s3)
        | (Inr v, s3) \<Rightarrow>
           (case calculate_max_min_bitrate s3 of
              (Inl e, s4) \<Rightarrow> (Inl e, s4)
            | (Inr mm, s4) \<Rightarrow>
               (case assemble_bitrate_statistics s4 of
                  (Inl e, s5) \<Rightarrow> (Inl e, s5)
                | (Inr r, s5) \<Rightarrow>
                   (case bitrate_stats s5 of
                      None \<Rightarrow> (Inl RuntimeError, s5)
                    | Some b \<Rightarrow> (Inr b, s5))))))"

section \<open>Concrete inputs\<close>

definition packet :: "string \<Rightarrow> rat option \<Rightarrow> rat option \<Rightarrow> int \<Rightarrow> packet_info" where
  "packet fl p d sz = \<lparr> flags = fl, pts_time = p, duration_time = d, size_p = sz \<rparr>"

definition frame :: "int \<Rightarrow> frame_kind \<Rightarrow> rat option \<Rightarrow> int \<Rightarrow> rat option \<Rightarrow> FrameEntry" where
  "frame i k p sz d = \<lparr> n_f = i, frame_type = k, pts = p, size_f = sz, duration_f = d \<rparr>"

text \<open>Three packets with timestamps 0, 1, 3 and no duration.\<close>

definition packets_pts_only :: "packet_info list" where
  "packets_pts_only =
     [packet ''K_'' (Some 0) None 1000, packet ''__'' (Some 1) None 2000,
      packet ''__'' (Some 3) None 1000]"



text \<open>Two packets with neither timestamp nor duration.\<close>

definition packets_no_timing :: "packet_info list" where
  "packets_no_timing = [packet ''K_'' None None 1000, packet ''__'' None None 2000]"




text \<open>Five entries of types I, Non-I, Non-I, I, Non-I.\<close>

definition frames_two_gops :: "FrameEntry list" where
  "frames_two_gops =
     [frame 1 I (Some 0) 1000 (Some 1), frame 2 Non_I (Some 1) 500 (Some 1),
      frame 3 Non_I (Some 2) 500 (Some 1), frame 4 I (Some 3) 1000 (Some 1),
      frame 5 Non_I (Some 4) 500 (Some 1)]"

text \<open>Four entries of half a second each.\<close>

definition frames_half_seconds :: "FrameEntry list" where
  "frames_half_seconds =
     [frame 1 I (Some 0) 1000 (Some (1 / 2)), frame 2 Non_I (Some (1 / 2)) 2000 (Some (1 / 2)),
      frame 3 Non_I (Some 1) 1000 (Some (1 / 2)), frame 4 Non_I (Some (3 / 2)) 1000 (Some (1 / 2))]"

text \<open>A fresh instance for a video stream, aggregated by time in chunks of one second.\<close>

definition fresh_stats :: BitrateStats where
  "fresh_stats =
     \<lparr> input_file = ''in.mp4'', stream_type = Video, aggregation = Time, chunk_size = 1,
       dry_run = False, duration = Fin 0, fps = Fin 0, max_bitrate = Fin 0,
       min_bitrate = Fin 0, moving_avg_bitrate = [], frames = [],
       bitrate_stats = None, rounding_factor = 3, chunks_cached = [],
       avg_bitrate = None, avg_bitrate_over_chunks = None,
       max_bitrate_factor = None \<rparr>"

definition probe_of :: "packet_info list \<Rightarrow> world" where
  "probe_of info = \<lparr> probe_packets = Some info, probe_runs = 0 \<rparr>"

section \<open>The chunks partition the frames\<close>

lemma gop_fold_concat:
  "fold gop_step fs (cs, cur) = (cs', cur') \<Longrightarrow> concat cs' @ cur' = concat cs @ cur @ fs"
proof (induction fs arbitrary: cs cur)
  case Nil
  then show ?case by simp
next
  case (Cons f fs)
  obtain cs1 cur1 where st: "gop_step f (cs, cur) = (cs1, cur1)"
    by (cases "gop_step f (cs, cur)")
  from Cons.prems st have "fold gop_step fs (cs1, cur1) = (cs', cur')" by simp
  then have "concat cs' @ cur' = concat cs1 @ cur1 @ fs" by (rule Cons.IH)
  moreover from st have "concat cs1 @ cur1 = concat cs @ cur @ [f]"
    by (auto simp: gop_step_def Let_def split: if_splits)
  ultimately show ?case by (metis append.assoc append_Cons append_Nil)
qed

lemma time_fold_concat:
  "fold (time_step k) fs (cs, cur, a) = (cs', cur', a') \<Longrightarrow> concat cs' @ cur' = concat cs @ cur @ fs"
proof (induction fs arbitrary: cs cur a)
  case Nil
  then show ?case by simp
next
  case (Cons f fs)
  obtain cs1 cur1 a1 where st: "time_step k f (cs, cur, a) = (cs1, cur1, a1)"
    by (cases "time_step k f (cs, cur, a)")
  from Cons.prems st have "fold (time_step k) fs (cs1, cur1, a1) = (cs', cur', a')" by simp
  then have "concat cs' @ cur' = concat cs1 @ cur1 @ fs" by (rule Cons.IH)
  moreover from st have "concat cs1 @ cur1 = concat cs @ cur @ [f]"
    by (auto simp: time_step_def split: if_splits)
  ultimately show ?case by (metis append.assoc append_Cons append_Nil)
qed

lemma gop_chunks_concat: "concat (gop_chunks fs) = fs"
proof -
  obtain cs cur where f: "fold gop_step fs ([], []) = (cs, cur)"
    by (cases "fold gop_step fs ([], [])")
  from gop_fold_concat[OF f] f show ?thesis by (simp add: gop_chunks_def)
qed

lemma time_chunks_concat: "concat (time_chunks k fs) = fs"
proof -
  obtain cs cur a where f: "fold (time_step k) fs ([], [], Fin 0) = (cs, cur, a)"
    by (cases "fold (time_step k) fs ([], [], Fin 0)")
  from time_fold_concat[OF f] f show ?thesis by (simp add: time_chunks_def)
qed

text \<open>
  C7. In both aggregation modes, for every list of frames (and every chunk size), the
  chunks that \<open>_collect_chunks\<close> builds, concatenated in their order, are the list of
  frames itself: no frame is lost, duplicated or moved.
\<close>

theorem chunks_concat_reconstructs:
  "concat (aggregation_chunks_of Gop csize fs) = fs
   \<and> concat (aggregation_chunks_of Time csize fs) = fs"
  by (simp add: aggregation_chunks_of_def gop_chunks_concat time_chunks_concat)

section \<open>GOP chunks start with a key frame\<close>

lemma starts_with_key_hd: "starts_with_key c = (c \<noteq> [] \<and> frame_type (hd c) = I)"
  by (cases c) (simp_all add: starts_with_key_def)

lemma gop_step_inv:
  assumes "gop_step f (cs, cur) = (cs1, cur1)"
    and "list_all starts_with_key (tl cs)" and "cs \<noteq> [] \<longrightarrow> starts_with_key cur"
  shows "list_all starts_with_key (tl cs1) \<and> (cs1 \<noteq> [] \<longrightarrow> starts_with_key cur1)"
  using assms
  by (cases cs; cases cur) (auto simp: gop_step_def Let_def starts_with_key_def split: if_splits)

lemma gop_fold_inv:
  "fold gop_step fs (cs, cur) = (cs', cur') \<Longrightarrow> list_all starts_with_key (tl cs) \<Longrightarrow>
   (cs \<noteq> [] \<longrightarrow> starts_with_key cur) \<Longrightarrow>
   list_all starts_with_key (tl cs') \<and> (cs' \<noteq> [] \<longrightarrow> starts_with_key cur')"
proof (induction fs arbitrary: cs cur)
  case Nil
  then show ?case by simp
next
  case (Cons f fs)
  obtain cs1 cur1 where st: "gop_step f (cs, cur) = (cs1, cur1)"
    by (cases "gop_step f (cs, cur)")
  from Cons.prems(1) st have fo: "fold gop_step fs (cs1, cur1) = (cs', cur')" by simp
  from gop_step_inv[OF st Cons.prems(2) Cons.prems(3)]
  have a: "list_all starts_with_key (tl cs1)" and b: "cs1 \<noteq> [] \<longrightarrow> starts_with_key cur1"
    by simp_all
  show ?case by (rule Cons.IH[OF fo a b])
qed

text \<open>
  C9. In GOP aggregation, for every list of frames, every chunk but the first is not
  empty and starts with a frame of type \<open>I\<close>.
\<close>

theorem gop_chunks_start_with_key:
  "\<forall>c \<in> set (tl (gop_chunks fs)). c \<noteq> [] \<and> frame_type (hd c) = I"
proof -
  obtain cs cur where f: "fold gop_step fs ([], []) = (cs, cur)"
    by (cases "fold gop_step fs ([], [])")
  from gop_fold_inv[OF f] have inv: "list_all starts_with_key (tl cs)" "cs \<noteq> [] \<longrightarrow> starts_with_key cur"
    by simp_all
  have "list_all starts_with_key (tl (cs @ [cur]))"
    using inv by (cases cs) simp_all
  then have "\<forall>c \<in> set (tl (gop_chunks fs)). starts_with_key c"
    using f by (simp add: gop_chunks_def list_all_iff)
  then show ?thesis
    by (simp add: starts_with_key_hd)
qed

theorem gop_chunks_start_with_key_witness:
  "tl (gop_chunks frames_two_gops) = [drop 3 frames_two_gops]
   \<and> drop 3 frames_two_gops \<noteq> [] \<and> frame_type (hd (drop 3 frames_two_gops)) = I"
proof -
  have t: "tl (gop_chunks frames_two_gops) = [drop 3 frames_two_gops]" by code_simp
  from gop_chunks_start_with_key[of frames_two_gops] t show ?thesis by simp
qed

section \<open>Time chunks reach the chunk size\<close>





section \<open>The series of bitrates is never empty\<close>

lemma truediv_error: "truediv a b = Inl e \<Longrightarrow> e = ZeroDivisionError"
  by (cases b) (auto split: if_splits pyfloat.splits)

lemma bitrate_error: "bitrate_for_frame_list c = Inl e \<Longrightarrow> e = ZeroDivisionError"
  by (auto simp: bitrate_for_frame_list_def Let_def split: if_splits dest: truediv_error)

lemma bitrates_error: "bitrates cs = Inl e \<Longrightarrow> e = ZeroDivisionError"
  by (induction cs) (auto split: sum.splits dest: bitrate_error)

lemma bitrates_length: "bitrates cs = Inr bs \<Longrightarrow> length bs = length cs"
  by (induction cs arbitrary: bs) (auto split: sum.splits)

lemma aggregation_chunks_nonempty: "aggregation_chunks_of agg csize fs \<noteq> []"
  by (simp add: aggregation_chunks_of_def gop_chunks_def time_chunks_def split: prod.splits)

lemma collect_chunks_Inr:
  "collect_chunks self = (Inr c, s') \<Longrightarrow> c \<noteq> [] \<and> chunks_cached s' = c"
  using bitrates_length aggregation_chunks_nonempty
  by (fastforce simp: collect_chunks_def split: if_splits sum.splits)

lemma collect_chunks_Inl:
  "collect_chunks self = (Inl e, s') \<Longrightarrow> e = ZeroDivisionError"
  by (auto simp: collect_chunks_def split: if_splits sum.splits dest: bitrates_error)

lemma collect_chunks_cached:
  "chunks_cached self \<noteq> [] \<Longrightarrow> collect_chunks self = (Inr (chunks_cached self), self)"
  by (simp add: collect_chunks_def)

lemma py_max_nonempty: "c \<noteq> [] \<Longrightarrow> \<exists>m. py_max c = Inr m"
  by (cases c) simp_all

lemma py_min_nonempty: "c \<noteq> [] \<Longrightarrow> \<exists>m. py_min c = Inr m"
  by (cases c) simp_all

lemma max_min_error:
  assumes "calculate_max_min_bitrate self = (Inl e, s')"
  shows "e = ZeroDivisionError"
proof (cases "collect_chunks self")
  case (Pair r s1)
  show ?thesis
  proof (cases r)
    case (Inl e1)
    with Pair assms have "e = e1" by (simp add: calculate_max_min_bitrate_def)
    with Pair Inl show ?thesis using collect_chunks_Inl by blast
  next
    case (Inr c1)
    with Pair have c: "c1 \<noteq> []" "chunks_cached s1 = c1" using collect_chunks_Inr by blast+
    then obtain mx where mx: "py_max c1 = Inr mx" using py_max_nonempty by blast
    from c obtain mn where mn: "py_min c1 = Inr mn" using py_min_nonempty by blast
    have "collect_chunks (s1\<lparr>max_bitrate := mx\<rparr>) = (Inr c1, s1\<lparr>max_bitrate := mx\<rparr>)"
      using c collect_chunks_cached[of "s1\<lparr>max_bitrate := mx\<rparr>"] by simp
    with Pair Inr mx mn assms show ?thesis
      by (simp add: calculate_max_min_bitrate_def Let_def)
  qed
qed

text \<open>
  C10. For every list of frames, the empty one too, and both aggregation modes, the list
  of chunks is not empty, so \<open>_collect_chunks\<close> either raises \<open>ZeroDivisionError\<close> (from a
  chunk's bitrate) or returns a series with at least one element, from the cache as
  well; \<open>_calculate_max_min_bitrate\<close> therefore never raises the \<open>ValueError\<close> of an
  empty sequence. With no frames and an empty cache the series is the single
  not-a-number of the flushed empty chunk.
\<close>

theorem chunk_series_never_empty:
  "aggregation_chunks_of agg csize fs \<noteq> []
   \<and> (case collect_chunks self of (Inl e, s') \<Rightarrow> e = ZeroDivisionError | (Inr c, s') \<Rightarrow> c \<noteq> [])
   \<and> fst (calculate_max_min_bitrate self) \<noteq> Inl ValueError
   \<and> fst (collect_chunks (self\<lparr>frames := [], chunks_cached := []\<rparr>)) = Inr [NaN]"
proof -
  have a: "case collect_chunks self of (Inl e, s') \<Rightarrow> e = ZeroDivisionError | (Inr c, s') \<Rightarrow> c \<noteq> []"
  proof (cases "collect_chunks self")
    case (Pair r s1)
    then show ?thesis
      using collect_chunks_Inl[of self _ s1] collect_chunks_Inr[of self _ s1]
      by (cases r) simp_all
  qed
  have b: "fst (calculate_max_min_bitrate self) \<noteq> Inl ValueError"
    using max_min_error[of self] by (cases "calculate_max_min_bitrate self") auto
  have c: "fst (collect_chunks (self\<lparr>frames := [], chunks_cached := []\<rparr>)) = Inr [NaN]"
    by (simp add: collect_chunks_def aggregation_chunks_of_def gop_chunks_def time_chunks_def
        bitrate_for_frame_list_def)
  from a b c aggregation_chunks_nonempty show ?thesis by blast
qed

theorem chunk_series_never_empty_witness:
  "fst (collect_chunks (fresh_stats\<lparr>frames := frames_half_seconds\<rparr>)) = Inr [Fin 48, Fin 32]
   \<and> fst (calculate_max_min_bitrate (fresh_stats\<lparr>frames := frames_half_seconds\<rparr>)) = Inr (Fin 48, Fin 32)
   \<and> fst (calculate_max_min_bitrate (fresh_stats\<lparr>frames := frames_half_seconds\<rparr>)) \<noteq> Inl ValueError
   \<and> fst (collect_chunks (fresh_stats\<lparr>frames := [], chunks_cached := []\<rparr>)) = Inr [NaN]"
proof -
  have a: "fst (collect_chunks (fresh_stats\<lparr>frames := frames_half_seconds\<rparr>)) = Inr [Fin 48, Fin 32]"
    by code_simp
  have b: "fst (calculate_max_min_bitrate (fresh_stats\<lparr>frames := frames_half_seconds\<rparr>)) = Inr (Fin 48, Fin 32)"
    by code_simp
  from chunk_series_never_empty[of Time 1 frames_half_seconds "fresh_stats\<lparr>frames := frames_half_seconds\<rparr>"]
    chunk_series_never_empty[of Time 1 "[]" fresh_stats] a b
  show ?thesis by simp
qed

section \<open>Durations repaired from the timestamps\<close>

lemma fix_fold:
  "k \<le> length ret - 1 \<Longrightarrow> fold fix_step [0..<k] (ret, None) = (ret', ld) \<Longrightarrow>
   length ret' = length ret \<and>
   (\<forall>i < length ret. ret' ! i = (if i < k then repaired ret i else ret ! i))"
proof (induction k arbitrary: ret' ld)
  case 0
  then show ?case by simp
next
  case (Suc k)
  obtain r1 l1 where f: "fold fix_step [0..<k] (ret, None) = (r1, l1)"
    by (cases "fold fix_step [0..<k] (ret, None)")
  from Suc.prems(1) have k: "k \<le> length ret - 1" and k1: "k + 1 < length ret" by simp_all
  from Suc.IH[OF k f] have len: "length r1 = length ret"
    and el: "\<forall>i < length ret. r1 ! i = (if i < k then repaired ret i else ret ! i)" by simp_all
  from el k1 have rk: "r1 ! k = ret ! k" and rk1: "r1 ! (k + 1) = ret ! (k + 1)" by simp_all
  from Suc.prems(2) f have st: "fix_step k (r1, l1) = (ret', ld)" by simp
  have "r1[k := repaired ret k] = ret'"
  proof (cases "pts_delta ret k")
    case None
    then have "repaired ret k = r1 ! k" by (simp add: repaired_def rk)
    moreover from None st rk rk1 have "ret' = r1"
      by (auto simp: fix_step_def pts_delta_def split: option.splits)
    ultimately show ?thesis by simp
  next
    case (Some d)
    with st rk rk1 show ?thesis
      by (auto simp: fix_step_def repaired_def pts_delta_def split: option.splits)
  qed
  then have "ret' = r1[k := repaired ret k]" by simp
  with len el k1 show ?case by (auto simp: nth_list_update)
qed

lemma fix_fold_last:
  "k \<le> length ret - 1 \<Longrightarrow> fold fix_step [0..<k] (ret, None) = (ret', ld) \<Longrightarrow>
   \<forall>i < k. pts_delta ret i \<noteq> None \<Longrightarrow>
   ld = (if k = 0 then None else pts_delta ret (k - 1))"
proof (induction k arbitrary: ret' ld)
  case 0
  then show ?case by simp
next
  case (Suc k)
  obtain r1 l1 where f: "fold fix_step [0..<k] (ret, None) = (r1, l1)"
    by (cases "fold fix_step [0..<k] (ret, None)")
  from Suc.prems(1) have k: "k \<le> length ret - 1" and k1: "k + 1 < length ret" by simp_all
  from fix_fold[OF k f] k1 have rk: "r1 ! k = ret ! k" and rk1: "r1 ! (k + 1) = ret ! (k + 1)" by simp_all
  from Suc.prems(2) f have st: "fix_step k (r1, l1) = (ret', ld)" by simp
  from Suc.prems(3) obtain d where d: "pts_delta ret k = Some d" by auto
  with st rk rk1 show ?case
    by (auto simp: fix_step_def pts_delta_def split: option.splits)
qed

lemma fix_durations_length: "length (fix_durations ret) = length ret"
proof -
  obtain r1 l1 where f: "fold fix_step [0..<length ret - 1] (ret, None) = (r1, l1)"
    by (cases "fold fix_step [0..<length ret - 1] (ret, None)")
  from fix_fold[OF le_refl f] show ?thesis using f
    by (simp add: fix_durations_def split: option.splits)
qed

lemma fix_durations_nth:
  assumes "i + 1 < length ret"
  shows "fix_durations ret ! i = repaired ret i"
proof -
  obtain r1 l1 where f: "fold fix_step [0..<length ret - 1] (ret, None) = (r1, l1)"
    by (cases "fold fix_step [0..<length ret - 1] (ret, None)")
  from fix_fold[OF le_refl f] assms have "length r1 = length ret" "r1 ! i = repaired ret i"
    by simp_all
  with assms f show ?thesis
    by (simp add: fix_durations_def split: option.splits)
qed

lemma fix_durations_last:
  assumes "2 \<le> length ret" and "\<forall>i. i + 1 < length ret \<longrightarrow> pts_delta ret i \<noteq> None"
  shows "duration_f (fix_durations ret ! (length ret - 1)) = pts_delta ret (length ret - 2)"
proof -
  obtain r1 l1 where f: "fold fix_step [0..<length ret - 1] (ret, None) = (r1, l1)"
    by (cases "fold fix_step [0..<length ret - 1] (ret, None)")
  from fix_fold[OF le_refl f] have len: "length r1 = length ret" by simp
  from assms(2) have "\<forall>i < length ret - 1. pts_delta ret i \<noteq> None" by simp
  from fix_fold_last[OF le_refl f this] assms(1)
  have l1: "l1 = pts_delta ret (length ret - 2)"
    by (simp add: numeral_2_eq_2) 
  from assms(1) have "length ret - 2 + 1 < length ret" by simp
  with assms(2) have "pts_delta ret (length ret - 2) \<noteq> None" by blast
  then obtain d where d: "pts_delta ret (length ret - 2) = Some d" by auto
  with l1 f len assms(1) show ?thesis
    by (simp add: fix_durations_def)
qed

lemma default_duration_None: "default_duration info = None \<longleftrightarrow> (\<forall>p \<in> set info. duration_time p = None)"
  by (auto simp: default_duration_def find_None_iff split: option.splits dest: find_Some_iff[THEN iffD1])


lemma frame_entries_length: "length (frame_entries info) = length info"
  by (simp add: frame_entries_def Let_def fix_durations_length)

lemma unrepaired_pts:
  "i < length info \<Longrightarrow> pts (map (frame_entry dflt) (enumerate 1 info) ! i) = pts_time (info ! i)"
  by (simp add: nth_enumerate_eq frame_entry_def)

lemma unrepaired_delta:
  assumes "i + 1 < length info"
  shows "pts_delta (map (frame_entry dflt) (enumerate 1 info)) i =
     (case pts_time (info ! i) of
        None \<Rightarrow> None
      | Some a \<Rightarrow> (case pts_time (info ! (i + 1)) of None \<Rightarrow> None | Some b \<Rightarrow> Some (b - a)))"
proof -
  from assms have "i < length info" by simp
  with assms show ?thesis
    unfolding pts_delta_def by (simp only: unrepaired_pts)
qed

lemma frame_entries_pts:
  assumes "i < length info"
  shows "pts (frame_entries info ! i) = pts_time (info ! i)"
proof (cases "default_duration info")
  case (Some d)
  then have "frame_entries info = map (frame_entry (Some d)) (enumerate 1 info)"
    by (simp add: frame_entries_def Let_def)
  with unrepaired_pts[OF assms, of "Some d"] show ?thesis by simp
next
  case None
  let ?ret = "map (frame_entry None) (enumerate 1 info)"
  have fe: "frame_entries info = fix_durations ?ret"
    using None by (simp add: frame_entries_def Let_def)
  obtain r1 l1 where f: "fold fix_step [0..<length ?ret - 1] (?ret, None) = (r1, l1)"
    by (cases "fold fix_step [0..<length ?ret - 1] (?ret, None)")
  from fix_fold[OF le_refl f] assms have len: "length r1 = length info"
    and el: "r1 ! i = (if i < length info - 1 then repaired ?ret i else ?ret ! i)" by simp_all
  have "pts (repaired ?ret i) = pts (?ret ! i)"
    by (simp add: repaired_def split: option.splits)
  with el have "pts (r1 ! i) = pts (?ret ! i)" by simp
  moreover have "pts (fix_durations ?ret ! i) = pts (r1 ! i)"
    using f len assms
    by (cases l1) (simp_all add: fix_durations_def nth_list_update)
  ultimately show ?thesis using fe unrepaired_pts[OF assms, of None] by simp
qed

lemma frame_entries_delta:
  assumes "\<forall>p \<in> set info. duration_time p = None" and "i + 1 < length info"
    and "pts_time (info ! i) = Some a" and "pts_time (info ! (i + 1)) = Some b"
  shows "duration_f (frame_entries info ! i) = Some (b - a)"
proof -
  let ?ret = "map (frame_entry None) (enumerate 1 info)"
  from assms(1) have "default_duration info = None" by (simp add: default_duration_None)
  then have fe: "frame_entries info = fix_durations ?ret"
    by (simp add: frame_entries_def Let_def)
  from assms(2) have "fix_durations ?ret ! i = repaired ?ret i"
    by (intro fix_durations_nth) simp
  moreover have "pts_delta ?ret i = Some (b - a)"
    using unrepaired_delta[OF assms(2), of None] assms(3,4) by simp
  ultimately show ?thesis using fe by (simp add: repaired_def)
qed

text \<open>
  C6. For every list of two or more packets that have no duration and all have a
  timestamp, after the repair the duration of every entry but the last is the next
  entry's timestamp minus its own, and the last entry has the duration of the one
  before it.
\<close>

theorem repair_from_timestamps:
  assumes "2 \<le> length info"
    and "\<forall>p \<in> set info. duration_time p = None"
    and "\<forall>p \<in> set info. pts_time p \<noteq> None"
  shows "length (frame_entries info) = length info
    \<and> (\<forall>i. i + 1 < length info \<longrightarrow>
          duration_f (frame_entries info ! i)
            = Some (the (pts (frame_entries info ! (i + 1))) - the (pts (frame_entries info ! i))))
    \<and> duration_f (last (frame_entries info))
        = duration_f (frame_entries info ! (length info - 2))"
proof -
  let ?ret = "map (frame_entry None) (enumerate 1 info)"
  have pd: "\<And>i. i < length info \<Longrightarrow> \<exists>a. pts_time (info ! i) = Some a"
    using assms(3) by (metis nth_mem not_None_eq)
  have mid: "duration_f (frame_entries info ! i)
      = Some (the (pts_time (info ! (i + 1))) - the (pts_time (info ! i)))"
    if "i + 1 < length info" for i
  proof -
    from that pd[of i] pd[of "i + 1"] obtain a b
      where "pts_time (info ! i) = Some a" "pts_time (info ! (i + 1)) = Some b" by auto
    with frame_entries_delta[OF assms(2) that] show ?thesis by simp
  qed
  have a: "\<forall>i. i + 1 < length info \<longrightarrow>
          duration_f (frame_entries info ! i)
            = Some (the (pts (frame_entries info ! (i + 1))) - the (pts (frame_entries info ! i)))"
    using mid by (simp add: frame_entries_pts)
  from assms(2) have "default_duration info = None" by (simp add: default_duration_None)
  then have fe: "frame_entries info = fix_durations ?ret"
    by (simp add: frame_entries_def Let_def)
  have nd: "\<forall>i. i + 1 < length ?ret \<longrightarrow> pts_delta ?ret i \<noteq> None"
  proof (intro allI impI)
    fix i assume "i + 1 < length ?ret"
    then have i: "i + 1 < length info" by simp
    from i pd[of i] pd[of "i + 1"] obtain a b
      where "pts_time (info ! i) = Some a" "pts_time (info ! (i + 1)) = Some b" by auto
    with unrepaired_delta[OF i, of None] show "pts_delta ?ret i \<noteq> None" by simp
  qed
  from assms(1) have l2: "2 \<le> length ?ret" by simp
  from assms(1) have i2: "length info - 2 + 1 < length info" by simp
  have "duration_f (fix_durations ?ret ! (length ?ret - 1)) = pts_delta ?ret (length ?ret - 2)"
    by (rule fix_durations_last[OF l2 nd])
  moreover have "fix_durations ?ret ! (length info - 2) = repaired ?ret (length info - 2)"
    by (rule fix_durations_nth) (use i2 in simp)
  moreover from nd i2 have "pts_delta ?ret (length info - 2) \<noteq> None" by simp
  ultimately have "duration_f (fix_durations ?ret ! (length info - 1))
      = duration_f (fix_durations ?ret ! (length info - 2))"
    by (auto simp: repaired_def)
  moreover have "last (frame_entries info) = frame_entries info ! (length info - 1)"
  proof -
    from assms(1) have "0 < length (frame_entries info)" by (simp only: frame_entries_length)
    then have "frame_entries info \<noteq> []" by (rule length_greater_0_conv[THEN iffD1])
    then show ?thesis by (simp add: last_conv_nth frame_entries_length)
  qed
  ultimately have b: "duration_f (last (frame_entries info))
        = duration_f (frame_entries info ! (length info - 2))"
    using fe by simp
  from a b frame_entries_length show ?thesis by blast
qed

theorem repair_from_timestamps_witness:
  "2 \<le> length packets_pts_only
   \<and> list_all (\<lambda>p. duration_time p = None \<and> pts_time p \<noteq> None) packets_pts_only
   \<and> map duration_f (frame_entries packets_pts_only) = [Some 1, Some 2, Some 2]
   \<and> duration_f (frame_entries packets_pts_only ! 0)
       = Some (the (pts (frame_entries packets_pts_only ! 1)) - the (pts (frame_entries packets_pts_only ! 0)))
   \<and> duration_f (last (frame_entries packets_pts_only))
       = duration_f (frame_entries packets_pts_only ! (length packets_pts_only - 2))"
proof -
  have h1: "2 \<le> length packets_pts_only" by code_simp
  have h2: "\<forall>p \<in> set packets_pts_only. duration_time p = None" by code_simp
  have h3: "\<forall>p \<in> set packets_pts_only. pts_time p \<noteq> None" by code_simp
  have e: "map duration_f (frame_entries packets_pts_only) = [Some 1, Some 2, Some 2]" by code_simp
  have l: "list_all (\<lambda>p. duration_time p = None \<and> pts_time p \<noteq> None) packets_pts_only" by code_simp
  have n: "0 + 1 < length packets_pts_only" by code_simp
  from repair_from_timestamps[OF h1 h2 h3] n h1 e l show ?thesis by simp
qed

section \<open>When the repair applies\<close>






section \<open>The bitrate of a chunk\<close>




section \<open>The steps of \<open>calculate_statistics\<close>\<close>

lemma calculate_frame_sizes_cases:
  "calculate_frame_sizes self w =
     (if dry_run self then (Inl (SystemExit 0), self, w)
      else case probe_packets w of
             None \<Rightarrow> (Inl (SystemExit 1), self, w\<lparr>probe_runs := probe_runs w + 1\<rparr>)
           | Some info \<Rightarrow> (Inr (frame_entries info), self\<lparr>frames := frame_entries info\<rparr>,
                          w\<lparr>probe_runs := probe_runs w + 1\<rparr>))"
  by (simp add: calculate_frame_sizes_def run_command_def Let_def split: option.splits)

lemma calculate_statistics_cases:
  "calculate_statistics self w =
     (if dry_run self then (Inl (SystemExit 0), self, w)
      else case probe_packets w of
             None \<Rightarrow> (Inl (SystemExit 1), self, w\<lparr>probe_runs := probe_runs w + 1\<rparr>)
           | Some info \<Rightarrow>
               (case statistics_after_probe (self\<lparr>frames := frame_entries info\<rparr>) of
                  (r, s5) \<Rightarrow> (r, s5, w\<lparr>probe_runs := probe_runs w + 1\<rparr>)))"
  unfolding calculate_statistics_def calculate_frame_sizes_cases statistics_after_probe_def
  by (auto split: option.splits prod.splits sum.splits)














lemma known_durations_none: "\<forall>f \<in> set fs. duration_f f = None \<Longrightarrow> known_durations fs = []"
  by (induction fs) simp_all

section \<open>A second call of \<open>calculate_statistics\<close>\<close>





section \<open>The duration that is reported and used\<close>




section \<open>Packets without any duration\<close>

text \<open>
  C1. A list of packets, not empty, none of which ends with a duration, is expected to
  go through the pipeline without an error. The sum of the known durations is then 0,
  as expected, but \<open>_calculate_fps\<close> divides the number of frames by it: for every such
  list \<open>calculate_statistics\<close> raises \<open>ZeroDivisionError\<close>, with the frames and the
  duration 0 stored in the instance and no summary.
\<close>

theorem no_durations_raise:
  assumes "probe_packets w = Some info" and "\<not> dry_run self" and "info \<noteq> []"
    and "\<forall>f \<in> set (frame_entries info). duration_f f = None"
  shows "sum_list (known_durations (frame_entries info)) = 0
    \<and> calculate_statistics self w
        = (Inl ZeroDivisionError, self\<lparr>frames := frame_entries info, duration := Fin 0\<rparr>,
           w\<lparr>probe_runs := probe_runs w + 1\<rparr>)"
proof -
  from assms(4) have k: "known_durations (frame_entries info) = []" by (rule known_durations_none)
  have z: "py_round (Fin 0) 2 = Fin 0" by (simp add: round_half_even_def)
  from k z assms(1,2) show ?thesis
    by (simp add: calculate_statistics_cases statistics_after_probe_def calculate_duration_def
        calculate_fps_def Let_def)
qed

theorem no_durations_raise_witness:
  "probe_packets (probe_of packets_no_timing) = Some packets_no_timing \<and> \<not> dry_run fresh_stats
   \<and> packets_no_timing \<noteq> []
   \<and> list_all (\<lambda>f. duration_f f = None) (frame_entries packets_no_timing)
   \<and> fst (calculate_statistics fresh_stats (probe_of packets_no_timing)) = Inl ZeroDivisionError"
proof -
  have h1: "probe_packets (probe_of packets_no_timing) = Some packets_no_timing" by code_simp
  have h2: "\<not> dry_run fresh_stats" by code_simp
  have h3: "packets_no_timing \<noteq> []" by code_simp
  have h4: "\<forall>f \<in> set (frame_entries packets_no_timing). duration_f f = None" by code_simp
  have h4': "list_all (\<lambda>f. duration_f f = None) (frame_entries packets_no_timing)" by code_simp
  from no_durations_raise[OF h1 h2 h3 h4] h1 h2 h3 h4' show ?thesis by simp
qed

end
